theory Spec2Isabelle
  imports Main "HOL-Library.Sublist" "HOL-Library.List_Lexorder" "HOL-Library.Char_ord"
    "HOL-Library.Multiset"
begin

section \<open>Go strings and the library functions the client calls\<close>

text \<open>
  A Go \<open>string\<close> is a sequence of bytes, and so is an Isabelle \<open>string\<close>: \<open>len(s)\<close> is
  \<open>length s\<close>, \<open>s[7:]\<close> is \<open>drop 7 s\<close> when \<open>7 \<le> len(s)\<close> and a panic otherwise, and the
  comparison of strings is bytewise lexicographic (the order of \<open>List_Lexorder\<close> over
  \<open>Char_ord\<close>).
\<close>

subsection \<open>\<open>unicode.IsSpace\<close>, \<open>strings.TrimSpace\<close>, \<open>strings.Fields\<close>\<close>

text \<open>
  \<open>strings.TrimSpace\<close> and \<open>strings.Fields\<close> cut at the runes of \<open>unicode.IsSpace\<close>:
  the six ASCII ones and U+0085, U+00A0, U+1680, U+2000 to U+200A, U+2028, U+2029, U+202F,
  U+205F, U+3000. \<open>white_space\<close> lists their UTF-8 encodings. Each encoding starts with
  a byte that is no continuation byte, so it is a white-space rune wherever it occurs in
  a byte string, valid UTF-8 or not.
\<close>

definition white_space :: "string list" where
  "white_space =
    [[CHR 0x09], [CHR 0x0A], [CHR 0x0B], [CHR 0x0C], [CHR 0x0D], [CHR 0x20],
     [CHR 0xC2, CHR 0x85], [CHR 0xC2, CHR 0xA0],
     [CHR 0xE1, CHR 0x9A, CHR 0x80],
     [CHR 0xE2, CHR 0x80, CHR 0x80], [CHR 0xE2, CHR 0x80, CHR 0x81],
     [CHR 0xE2, CHR 0x80, CHR 0x82], [CHR 0xE2, CHR 0x80, CHR 0x83],
     [CHR 0xE2, CHR 0x80, CHR 0x84], [CHR 0xE2, CHR 0x80, CHR 0x85],
     [CHR 0xE2, CHR 0x80, CHR 0x86], [CHR 0xE2, CHR 0x80, CHR 0x87],
     [CHR 0xE2, CHR 0x80, CHR 0x88], [CHR 0xE2, CHR 0x80, CHR 0x89],
     [CHR 0xE2, CHR 0x80, CHR 0x8A],
     [CHR 0xE2, CHR 0x80, CHR 0xA8], [CHR 0xE2, CHR 0x80, CHR 0xA9],
     [CHR 0xE2, CHR 0x80, CHR 0xAF], [CHR 0xE2, CHR 0x81, CHR 0x9F],
     [CHR 0xE3, CHR 0x80, CHR 0x80]]"

text \<open>The number of bytes of the white-space rune at the head of \<open>s\<close>; 0 when there is none.\<close>

definition space_len :: "string \<Rightarrow> nat" where
  "space_len s =
     (case find (\<lambda>w. prefix w s) white_space of None \<Rightarrow> 0 | Some w \<Rightarrow> length w)"

text \<open>The same at the end of \<open>s\<close>.\<close>

definition space_len_back :: "string \<Rightarrow> nat" where
  "space_len_back s =
     (case find (\<lambda>w. suffix w s) white_space of None \<Rightarrow> 0 | Some w \<Rightarrow> length w)"

fun TrimLeft :: "string \<Rightarrow> string" where
  "TrimLeft [] = []"
| "TrimLeft (c # cs) =
     (if space_len (c # cs) = 0 then c # cs
      else TrimLeft (drop (space_len (c # cs) - 1) cs))"

text \<open>Trimming at the end is trimming the reversed string at its head, rune by rune.\<close>

fun TrimRight_rev :: "string \<Rightarrow> string" where
  "TrimRight_rev [] = []"
| "TrimRight_rev (c # cs) =
     (if space_len_back (rev (c # cs)) = 0 then c # cs
      else TrimRight_rev (drop (space_len_back (rev (c # cs)) - 1) cs))"

definition TrimRight :: "string \<Rightarrow> string" where
  "TrimRight s = rev (TrimRight_rev (rev s))"

definition TrimSpace :: "string \<Rightarrow> string" where
  "TrimSpace s = TrimRight (TrimLeft s)"

text \<open>
  \<open>strings.Fields\<close>: the maximal runs of bytes between white-space runes. \<open>cur\<close> is the
  field being read.
\<close>

fun fields_from :: "string \<Rightarrow> string \<Rightarrow> string list" where
  "fields_from cur [] = (if cur = [] then [] else [cur])"
| "fields_from cur (c # cs) =
     (if space_len (c # cs) = 0 then fields_from (cur @ [c]) cs
      else (if cur = [] then [] else [cur])
           @ fields_from [] (drop (space_len (c # cs) - 1) cs))"

definition Fields :: "string \<Rightarrow> string list" where
  "Fields s = fields_from [] s"

text \<open>\<open>strings.Join\<close>.\<close>

fun Join :: "string list \<Rightarrow> string \<Rightarrow> string" where
  "Join [] sep = []"
| "Join [x] sep = x"
| "Join (x # y # ys) sep = x @ sep @ Join (y # ys) sep"

subsection \<open>\<open>fmt\<close>: the verb \<open>%d\<close>\<close>

definition digit :: "nat \<Rightarrow> char" where
  "digit n = ''0123456789'' ! (n mod 10)"

fun decimal :: "nat \<Rightarrow> string" where
  "decimal n = (if n < 10 then [digit n] else decimal (n div 10) @ [digit n])"

declare decimal.simps [simp del]

definition fmt_d :: "int \<Rightarrow> string" where
  "fmt_d i = (if i < 0 then CHR ''-'' # decimal (nat (- i)) else decimal (nat i))"

subsection \<open>\<open>base64.StdEncoding.EncodeToString\<close>\<close>

definition encodeStd :: string where
  "encodeStd = ''ABCDEFGHIJKLMNOPQRSTUVWXYZabcdefghijklmnopqrstuvwxyz0123456789+/''"

definition b64 :: "nat \<Rightarrow> char" where
  "b64 n = encodeStd ! (n mod 64)"

fun encode_bytes :: "nat list \<Rightarrow> string" where
  "encode_bytes (a # b # c # rest) =
     [b64 (a div 4), b64 ((a mod 4) * 16 + b div 16), b64 ((b mod 16) * 4 + c div 64), b64 c]
     @ encode_bytes rest"
| "encode_bytes [a, b] =
     [b64 (a div 4), b64 ((a mod 4) * 16 + b div 16), b64 ((b mod 16) * 4), CHR ''='']"
| "encode_bytes [a] = [b64 (a div 4), b64 ((a mod 4) * 16), CHR ''='', CHR ''='']"
| "encode_bytes [] = []"

definition EncodeToString :: "string \<Rightarrow> string" where
  "EncodeToString s = encode_bytes (map of_char s)"

subsection \<open>\<open>net/url\<close>: \<open>QueryEscape\<close> and \<open>Values\<close>\<close>

definition upperhex :: string where
  "upperhex = ''0123456789ABCDEF''"

text \<open>
  \<open>shouldEscape\<close> in the mode \<open>encodeQueryComponent\<close>: the letters, the digits and
  \<open>-\<close>, \<open>_\<close>, \<open>.\<close>, \<open>~\<close> stay, every other byte is escaped.
\<close>

definition unreserved :: string where
  "unreserved = ''ABCDEFGHIJKLMNOPQRSTUVWXYZabcdefghijklmnopqrstuvwxyz0123456789-_.~''"

definition shouldEscape :: "char \<Rightarrow> bool" where
  "shouldEscape c = (c \<notin> set unreserved)"

definition escape_byte :: "char \<Rightarrow> string" where
  "escape_byte c =
     (if c = CHR '' '' then ''+''
      else if shouldEscape c
           then [CHR ''%'', upperhex ! (of_char c div 16), upperhex ! (of_char c mod 16)]
      else [c])"

definition QueryEscape :: "string \<Rightarrow> string" where
  "QueryEscape s = concat (map escape_byte s)"

text \<open>
  \<open>url.Values\<close> is a \<open>map[string][]string\<close>, kept here as an association list with one
  entry for each key. \<open>Add\<close> appends to the key's values; \<open>Encode\<close> writes the keys in
  sorted order, every pair escaped, with \<open>&\<close> between the pairs.
\<close>

type_synonym Values = "(string \<times> string list) list"

fun Add :: "string \<Rightarrow> string \<Rightarrow> Values \<Rightarrow> Values" where
  "Add k v [] = [(k, [v])]"
| "Add k v ((k', vs) # m) = (if k = k' then (k', vs @ [v]) # m else (k', vs) # Add k v m)"

definition Get_all :: "Values \<Rightarrow> string \<Rightarrow> string list" where
  "Get_all m k = (case map_of m k of None \<Rightarrow> [] | Some vs \<Rightarrow> vs)"

definition Encode :: "Values \<Rightarrow> string" where
  "Encode m =
     Join (concat (map (\<lambda>k. map (\<lambda>v. QueryEscape k @ ''='' @ QueryEscape v) (Get_all m k))
                       (sort (map fst m)))) ''&''"

section \<open>The transport client (\<open>http_client.go\<close>)\<close>

text \<open>
  A Go \<open>error\<close> is kept as its message, the text \<open>fmt.Println(err)\<close> prints.
\<close>

datatype error = Err (message: string)

record HttpClient =
  Host :: string
  Port :: int
  BasicToken :: string

definition generateBasicToken :: "string \<Rightarrow> string \<Rightarrow> HttpClient \<Rightarrow> HttpClient" where
  "generateBasicToken u p receiver =
     (let encodeString = u @ '':'' @ p;
          authorization = ''Basic '' @ EncodeToString encodeString
      in receiver\<lparr>BasicToken := authorization\<rparr>)"

record QueryValue =
  Database :: string
  RetentionPolicy :: string
  Command :: string
  Precision :: string

record WriteValue =
  Database :: string
  RetentionPolicy :: string
  LineProtocol :: string

text \<open>
  The request handed to \<open>net/http\<close>. \<open>Header.Set\<close> replaces the value of a key. The
  header names the client sets are already in canonical form.
\<close>

record Request =
  Method :: string
  URL :: string
  Header :: "(string \<times> string) list"
  Body :: string

fun Header_Set :: "string \<Rightarrow> string \<Rightarrow> (string \<times> string) list \<Rightarrow> (string \<times> string) list" where
  "Header_Set k v [] = [(k, v)]"
| "Header_Set k v ((k', v') # h) = (if k = k' then (k, v) # h else (k', v') # Header_Set k v h)"

section \<open>The result model (\<open>prompt.go\<close>)\<close>

text \<open>
  A cell of a row is an \<open>interface{}\<close>, whatever \<open>encoding/json\<close> decoded: the type
  \<open>'v\<close>. \<open>Tags\<close> is a Go map; the list holds its entries in the order in which
  \<open>range\<close> yields them, which Go leaves open. \<open>Series\<close> and \<open>Results\<close> are slices of
  pointers: an entry is \<open>None\<close> where the pointer is nil, as \<open>encoding/json\<close> leaves it
  for a JSON \<open>null\<close>.
\<close>

record 'v Series =
  Name :: string
  Tags :: "(string \<times> string) list"
  Columns :: "string list"
  Values :: "'v list list"

record 'v SeriesResult =
  Series :: "'v Series option list"
  Error :: string

record 'v QueryResult =
  Results :: "'v SeriesResult option list"
  Error :: string

section \<open>What the client does to the outside\<close>

text \<open>
  The table that \<open>tablewriter\<close> is given: the switch \<open>SetAutoFormatHeaders\<close> sets, the
  header of \<open>SetHeader\<close> and the rows of \<open>Append\<close>, in the order of the calls.
\<close>

record Table =
  autoFormatHeaders :: bool
  headers :: "string list"
  rows :: "string list list"

definition NewWriter :: Table where
  "NewWriter = \<lparr>autoFormatHeaders = True, headers = [], rows = []\<rparr>"

definition SetAutoFormatHeaders :: "bool \<Rightarrow> Table \<Rightarrow> Table" where
  "SetAutoFormatHeaders auto w = w\<lparr>autoFormatHeaders := auto\<rparr>"

definition SetHeader :: "string list \<Rightarrow> Table \<Rightarrow> Table" where
  "SetHeader keys w = w\<lparr>headers := keys\<rparr>"

definition Append :: "string list \<Rightarrow> Table \<Rightarrow> Table" where
  "Append row w = w\<lparr>rows := rows w @ [row]\<rparr>"

text \<open>
  An event is one effect, in the order of execution: bytes written to standard output,
  a request handed to \<open>net/http\<close>, a table handed to \<open>tablewriter\<close>'s \<open>Render\<close>.
\<close>

datatype event = Stdout string | HttpDo Request | Render Table

definition Println :: "string \<Rightarrow> event" where
  "Println s = Stdout (s @ ''\<newline>'')"

text \<open>
  How a call ends: it returns, it panics, or the process exits (\<open>os.Exit\<close>).
\<close>

datatype 'a result = Returned 'a | Panicked | Exited

text \<open>
  The answers of the outside during one input line:
  \<^item> \<open>transport\<close>: \<open>http.NewRequest\<close>, \<open>Client.Do\<close> and \<open>io.ReadAll\<close> together, the body of
    the response or the error of the first of them that fails;
  \<^item> \<open>unmarshal\<close>: \<open>json.Unmarshal\<close> into a \<open>QueryResult\<close>;
  \<^item> \<open>sprint_v\<close>: \<open>fmt.Sprintf("%v", val)\<close>;
  \<^item> \<open>scan_username\<close>: the word \<open>fmt.Scanf\<close> stores, \<open>None\<close> when it stores none;
  \<^item> \<open>read_password\<close>: the bytes of \<open>term.ReadPassword\<close>, empty when it fails.
\<close>

record 'v env =
  transport :: "Request \<Rightarrow> error + string"
  unmarshal :: "string \<Rightarrow> error + 'v QueryResult"
  sprint_v :: "'v \<Rightarrow> string"
  scan_username :: "string option"
  read_password :: string

definition innerRequest ::
  "'v env \<Rightarrow> HttpClient \<Rightarrow> string \<Rightarrow> string \<Rightarrow> event list \<times> (error + string)" where
  "innerRequest e receiver u reader =
     (let req = \<lparr>Method = ''POST'', URL = u, Header = [], Body = reader\<rparr>;
          req = req\<lparr>Header := Header_Set ''Content-Type'' ''application/x-www-form-urlencoded''
                                 (Header req)\<rparr>;
          req = (if BasicToken receiver \<noteq> ''''
                 then req\<lparr>Header := Header_Set ''Authorization'' (''Basic '' @ BasicToken receiver)
                                        (Header req)\<rparr>
                 else req)
      in ([HttpDo req], transport e req))"

definition HttpClient_query ::
  "'v env \<Rightarrow> HttpClient \<Rightarrow> QueryValue \<Rightarrow> event list \<times> (error + string)" where
  "HttpClient_query e receiver q =
     (let qv = [];
          qv = Add ''db'' (QueryValue.Database q) qv;
          qv = Add ''rp'' (QueryValue.RetentionPolicy q) qv;
          qv = Add ''q'' (Command q) qv;
          qv = Add ''epoch'' (QueryValue.Precision q) qv;
          u = ''http://'' @ Host receiver @ '':'' @ fmt_d (Port receiver) @ ''/query''
      in innerRequest e receiver u (Encode qv))"

definition HttpClient_write ::
  "'v env \<Rightarrow> HttpClient \<Rightarrow> WriteValue \<Rightarrow> event list \<times> error option" where
  "HttpClient_write e receiver w =
     (let u = ''http://'' @ Host receiver @ '':'' @ fmt_d (Port receiver)
              @ ''/write?db='' @ WriteValue.Database w @ ''&rp='' @ WriteValue.RetentionPolicy w;
          (ev, r) = innerRequest e receiver u (LineProtocol w)
      in (ev, case r of Inl err \<Rightarrow> Some err | Inr _ \<Rightarrow> None))"

section \<open>The command line (\<open>prompt.go\<close>)\<close>

text \<open>\<open>type Command string\<close> and its constants.\<close>

type_synonym Command = string

definition Rp :: Command where "Rp = ''rp''"
definition Set_cmd :: Command where "Set_cmd = ''set''"
definition Use :: Command where "Use = ''use''"
definition Help :: Command where "Help = ''help''"
definition Show :: Command where "Show = ''show''"
definition Drop :: Command where "Drop = ''drop''"
definition Kill :: Command where "Kill = ''kill''"
definition Auth :: Command where "Auth = ''auth''"
definition Grant :: Command where "Grant = ''grant''"
definition Alter :: Command where "Alter = ''alter''"
definition Revoke :: Command where "Revoke = ''revoke''"
definition Insert :: Command where "Insert = ''insert''"
definition Create :: Command where "Create = ''create''"
definition Explain :: Command where "Explain = ''explain''"
definition Precision_cmd :: Command where "Precision_cmd = ''precision''"

text \<open>
  The struct without its \<open>prompt\<close> field, the handle of the line editor. The shared
  \<open>stdHttpClient\<close> is passed to the functions that use it; no function of the command
  line changes it.
\<close>

record CommandLine =
  Username :: string
  Password :: string
  Precision :: string
  Database :: string
  RetentionPolicy :: string

definition auth :: "'v env \<Rightarrow> CommandLine \<Rightarrow> event list \<times> error option \<times> CommandLine" where
  "auth e cl =
     (let cl = (case scan_username e of None \<Rightarrow> cl | Some u \<Rightarrow> cl\<lparr>Username := u\<rparr>);
          cl = cl\<lparr>Password := read_password e\<rparr>
      in ([Stdout ''username: '', Stdout ''password: '', Stdout ''\<newline>''], None, cl))"

definition use :: "CommandLine \<Rightarrow> string \<Rightarrow> error option \<times> CommandLine" where
  "use cl arg =
     (let parts = Fields arg
      in if length parts \<le> 1 then (Some (Err ''invalid argument, use [db name]''), cl)
         else (None, cl\<lparr>CommandLine.Database := parts ! 1\<rparr>))"

definition retentionPolicy :: "CommandLine \<Rightarrow> string \<Rightarrow> error option \<times> CommandLine" where
  "retentionPolicy cl arg =
     (let parts = Fields arg
      in if length parts \<le> 1
         then (Some (Err ''invalid argument, rp [retention policy]''), cl)
         else (None, cl\<lparr>CommandLine.RetentionPolicy := parts ! 1\<rparr>))"

definition precision :: "CommandLine \<Rightarrow> string \<Rightarrow> error option \<times> CommandLine" where
  "precision cl arg =
     (let parts = Fields arg
      in if length parts \<le> 1
         then (Some (Err ''invalid argument, precision [rfc3339,h,m,s,ms,u,ns]''), cl)
         else (None, cl\<lparr>CommandLine.Precision := parts ! 1\<rparr>))"

definition usage :: string where
  "usage = Join
     [''Usage:'',
      CHR 0x09 # ''auth                    prompts for username and password'',
      CHR 0x09 # ''use <db name>           sets current database'',
      CHR 0x09 # ''precision <format>      specifies the format of the timestamp: rfc3339, h, m, s, ms, u or ns'',
      CHR 0x09 # ''exit/quit/ctrl+d        quits the openGemini shell'',
      '''',
      CHR 0x09 # ''show databases          show database names'',
      CHR 0x09 # ''show series             show series information'',
      CHR 0x09 # ''show measurements       show measurement information'',
      CHR 0x09 # ''show tag keys           show tag key information'',
      CHR 0x09 # ''show field keys         show field key information'',
      '''',
      CHR 0x09 # ''A full list of openGemini commands can be found at:'',
      CHR 0x09 # ''https://docs.opengemini.org''] ''\<newline>''"

text \<open>The method \<open>help\<close>.\<close>

definition help_cmd :: "event list \<times> error option" where
  "help_cmd = ([Println usage], None)"

text \<open>The method \<open>write\<close> of the command line. \<open>arg[7:]\<close> panics when \<open>arg\<close> has fewer than 7 bytes.\<close>

definition write_cmd :: "'v env \<Rightarrow> HttpClient \<Rightarrow> CommandLine \<Rightarrow> string \<Rightarrow> (event list \<times> error option) result" where
  "write_cmd e stdHttpClient cl arg =
     (if length arg < 7 then Panicked
      else Returned (HttpClient_write e stdHttpClient
             \<lparr>WriteValue.Database = CommandLine.Database cl,
              WriteValue.RetentionPolicy = CommandLine.RetentionPolicy cl,
              LineProtocol = drop 7 arg\<rparr>))"

text \<open>\<open>parts[0]\<close> panics when \<open>arg\<close> has no field: \<open>None\<close>.\<close>

definition command :: "string \<Rightarrow> Command option" where
  "command arg = (case Fields arg of [] \<Rightarrow> None | p # _ \<Rightarrow> Some p)"

text \<open>
  \<open>deconstruct\<close> resets the terminal (\<open>stty -raw echo\<close>, not on Windows) and ends the
  process with \<open>os.Exit(0)\<close>; nothing after the call runs.
\<close>

definition deconstruct :: "event list \<times> 'a result" where
  "deconstruct = ([], Exited)"

subsection \<open>The renderer\<close>

text \<open>
  The loop over \<open>series.Tags\<close>: appends the pair and sorts the slice, for every entry of
  the map.
\<close>

definition series_tags :: "(string \<times> string) list \<Rightarrow> string list" where
  "series_tags kvs = foldl (\<lambda>tags (k, v). sort (tags @ [k @ ''='' @ v])) [] kvs"

definition prettyTable :: "('v \<Rightarrow> string) \<Rightarrow> 'v Series \<Rightarrow> Table \<Rightarrow> Table" where
  "prettyTable sprint series w =
     foldl (\<lambda>w val. Append (map sprint val) w)
           (SetHeader (Columns series) (SetAutoFormatHeaders False w)) (Values series)"

text \<open>The body of the inner loop of \<open>pretty\<close>, for a series that is not nil.\<close>

definition pretty_series :: "('v \<Rightarrow> string) \<Rightarrow> 'v Series \<Rightarrow> event list" where
  "pretty_series sprint series =
     (let tags = series_tags (Tags series);
          writer = prettyTable sprint series NewWriter;
          caption = fmt_d (int (length (Columns series))) @ '' columns, ''
                    @ fmt_d (int (length (Values series))) @ '' rows in set''
      in (if Name series \<noteq> '''' then [Stdout (''name: '' @ Name series @ ''\<newline>'')] else [])
         @ (if length tags \<noteq> 0 then [Stdout (''tags: '' @ Join tags '', '' @ ''\<newline>'')] else [])
         @ [Render writer, Println caption, Println ''''])"

text \<open>
  The two loops. Reading \<open>series.Tags\<close> or \<open>result.Series\<close> through a nil pointer
  panics; what was printed before stays printed.
\<close>

fun pretty_inner :: "('v \<Rightarrow> string) \<Rightarrow> 'v Series option list \<Rightarrow> event list \<times> unit result" where
  "pretty_inner sprint [] = ([], Returned ())"
| "pretty_inner sprint (None # rest) = ([], Panicked)"
| "pretty_inner sprint (Some series # rest) =
     (case pretty_inner sprint rest of (ev, r) \<Rightarrow> (pretty_series sprint series @ ev, r))"

fun pretty_outer :: "('v \<Rightarrow> string) \<Rightarrow> 'v SeriesResult option list \<Rightarrow> event list \<times> unit result" where
  "pretty_outer sprint [] = ([], Returned ())"
| "pretty_outer sprint (None # rest) = ([], Panicked)"
| "pretty_outer sprint (Some res # rest) =
     (case pretty_inner sprint (Series res) of
        (ev, Returned _) \<Rightarrow> (case pretty_outer sprint rest of (ev', r) \<Rightarrow> (ev @ ev', r))
      | (ev, r) \<Rightarrow> (ev, r))"

definition pretty :: "'v env \<Rightarrow> string \<Rightarrow> event list \<times> unit result" where
  "pretty e r =
     (case unmarshal e r of
        Inl err \<Rightarrow> ([Println (message err)], Returned ())
      | Inr qr \<Rightarrow> pretty_outer (sprint_v e) (Results qr))"

definition query :: "'v env \<Rightarrow> HttpClient \<Rightarrow> CommandLine \<Rightarrow> string \<Rightarrow> event list \<times> error option result" where
  "query e stdHttpClient cl arg =
     (case HttpClient_query e stdHttpClient
             \<lparr>QueryValue.Database = CommandLine.Database cl,
              QueryValue.RetentionPolicy = CommandLine.RetentionPolicy cl,
              Command = arg,
              QueryValue.Precision = CommandLine.Precision cl\<rparr> of
        (ev, Inl err) \<Rightarrow> (ev, Returned (Some err))
      | (ev, Inr b) \<Rightarrow>
          (case pretty e b of
             (ev', Returned _) \<Rightarrow> (ev @ ev', Returned None)
           | (ev', Panicked) \<Rightarrow> (ev @ ev', Panicked)
           | (ev', Exited) \<Rightarrow> (ev @ ev', Exited)))"

subsection \<open>The executor\<close>

text \<open>The end of \<open>executor\<close>: an error of the handler is printed.\<close>

definition report :: "event list \<Rightarrow> error option \<Rightarrow> CommandLine \<Rightarrow> event list \<times> CommandLine result" where
  "report ev err cl =
     (case err of None \<Rightarrow> (ev, Returned cl) | Some e \<Rightarrow> (ev @ [Println (message e)], Returned cl))"

definition executor :: "'v env \<Rightarrow> HttpClient \<Rightarrow> CommandLine \<Rightarrow> string \<Rightarrow> event list \<times> CommandLine result" where
  "executor e stdHttpClient cl line =
     (let s = TrimSpace line
      in if length s = 0 then ([], Returned cl)
         else if s = ''exit'' \<or> s = ''quit'' \<or> s = [CHR 0x5C, CHR ''q''] then deconstruct
         else case command s of
           None \<Rightarrow> ([], Panicked)
         | Some c \<Rightarrow>
             if c = Help then (case help_cmd of (ev, err) \<Rightarrow> report ev err cl)
             else if c = Use then (case use cl s of (err, cl') \<Rightarrow> report [] err cl')
             else if c = Rp then (case retentionPolicy cl s of (err, cl') \<Rightarrow> report [] err cl')
             else if c = Auth then (case auth e cl of (ev, err, cl') \<Rightarrow> report ev err cl')
             else if c = Precision_cmd then (case precision cl s of (err, cl') \<Rightarrow> report [] err cl')
             else if c = Insert then
               (case write_cmd e stdHttpClient cl s of
                  Returned (ev, err) \<Rightarrow> report ev err cl
                | Panicked \<Rightarrow> ([], Panicked)
                | Exited \<Rightarrow> ([], Exited))
             else if c \<in> set [Show, Drop, Create, Explain, Kill, Grant, Alter, Revoke, Set_cmd] then
               (case query e stdHttpClient cl s of
                  (ev, Returned err) \<Rightarrow> report ev err cl
                | (ev, Panicked) \<Rightarrow> (ev, Panicked)
                | (ev, Exited) \<Rightarrow> (ev, Exited))
             else report [] (Some (Err (''unsupported command: '' @ c))) cl)"

text \<open>
  The line editor calls \<open>executor\<close> once for every line the user submits, as long as the
  process runs. Each line comes with the answers of the outside while it is executed.
\<close>

fun session :: "HttpClient \<Rightarrow> CommandLine \<Rightarrow> ('v env \<times> string) list \<Rightarrow> event list \<times> CommandLine result" where
  "session stdHttpClient cl [] = ([], Returned cl)"
| "session stdHttpClient cl ((e, line) # rest) =
     (case executor e stdHttpClient cl line of
        (ev, Returned cl') \<Rightarrow>
          (case session stdHttpClient cl' rest of (ev', r) \<Rightarrow> (ev @ ev', r))
      | (ev, r) \<Rightarrow> (ev, r))"

section \<open>Example inputs\<close>

text \<open>
  A client for \<open>localhost:8086\<close> without a token, a session on database \<open>db1\<close>, and a
  server whose answer decodes to one series with two tags, two columns and one row. The
  cells of the examples are whole numbers, which \<open>%v\<close> prints in decimal.
\<close>

definition ex_series :: "int Series" where
  "ex_series = \<lparr>Name = ''cpu'', Tags = [(''b'', ''2''), (''a'', ''1'')],
                 Columns = [''time'', ''value''], Values = [[1000, 42]]\<rparr>"

definition ex_result :: "int QueryResult" where
  "ex_result = \<lparr>Results = [Some \<lparr>Series = [Some ex_series], Error = []\<rparr>], Error = []\<rparr>"

definition ex_env :: "int env" where
  "ex_env = \<lparr>transport = (\<lambda>_. Inr []), unmarshal = (\<lambda>_. Inr ex_result), sprint_v = fmt_d,
              scan_username = Some ''admin'', read_password = ''secret''\<rparr>"

definition ex_client :: HttpClient where
  "ex_client = \<lparr>Host = ''localhost'', Port = 8086, BasicToken = []\<rparr>"

definition ex_cl :: CommandLine where
  "ex_cl = \<lparr>Username = [], Password = [], Precision = ''ns'', Database = ''db1'',
             RetentionPolicy = ''rp1''\<rparr>"

text \<open>
  An answer that decodes to three entries of \<open>series\<close>, the second one \<open>null\<close>: the body
  \<open>{"results":[{"series":[S,null,S]}]}\<close>, where \<open>S\<close> is the series of the example above.
\<close>

definition null_result :: "int QueryResult" where
  "null_result =
     \<lparr>Results = [Some \<lparr>Series = [Some ex_series, None, Some ex_series], Error = []\<rparr>],
      Error = []\<rparr>"

definition null_env :: "int env" where
  "null_env = ex_env\<lparr>unmarshal := (\<lambda>_. Inr null_result)\<rparr>"

section \<open>Properties of the library functions\<close>

lemmas Command_defs =
  Rp_def Set_cmd_def Use_def Help_def Show_def Drop_def Kill_def Auth_def Grant_def
  Alter_def Revoke_def Insert_def Create_def Explain_def Precision_cmd_def

lemma white_space_nonempty: "w \<in> set white_space \<Longrightarrow> w \<noteq> []"
  by (auto simp: white_space_def)

text \<open>No encoding of a white-space rune is the start of another one.\<close>

lemma space_len_append: "w \<in> set white_space \<Longrightarrow> space_len (w @ r) = length w"
  unfolding space_len_def white_space_def
  apply (simp only: set_simps insert_iff empty_iff)
  apply (elim disjE)
  apply simp_all
  done

lemma TrimLeft_space:
  assumes "w \<in> set white_space"
  shows "TrimLeft (w @ r) = TrimLeft r"
proof -
  have "w \<noteq> []"
    using assms by (rule white_space_nonempty)
  then obtain c cs where w: "w = c # cs"
    by (meson neq_Nil_conv)
  have "space_len (c # cs @ r) = Suc (length cs)"
    using space_len_append [OF assms, of r] w by simp
  then show ?thesis
    using w by simp
qed

lemma TrimLeft_spaces: "set ws \<subseteq> set white_space \<Longrightarrow> TrimLeft (concat ws) = []"
  by (induction ws) (simp_all add: TrimLeft_space)

lemma TrimSpace_spaces: "set ws \<subseteq> set white_space \<Longrightarrow> TrimSpace (concat ws) = []"
  by (simp add: TrimSpace_def TrimLeft_spaces TrimRight_def)

lemma Fields_Nil: "Fields [] = []"
  by (simp add: Fields_def)

lemma Fields_exit:
  "Fields ''exit'' = [''exit'']"
  "Fields ''quit'' = [''quit'']"
  "Fields [CHR 0x5C, CHR ''q''] = [[CHR 0x5C, CHR ''q'']]"
  by (simp_all add: Fields_def space_len_def white_space_def)

text \<open>
  A line that is not empty after trimming starts with a byte of a field, so it has a
  first field: \<open>parts[0]\<close> in \<open>command\<close> does not panic in the executor.
\<close>

lemma space_len_0_iff: "space_len s = 0 \<longleftrightarrow> (\<forall>w \<in> set white_space. \<not> prefix w s)"
proof (cases "find (\<lambda>w. prefix w s) white_space")
  case None
  then have "\<forall>w \<in> set white_space. \<not> prefix w s"
    by (simp add: find_None_iff)
  then show ?thesis
    using None by (simp add: space_len_def)
next
  case (Some w)
  then have "w \<in> set white_space" "prefix w s"
    by (auto simp: find_Some_iff)
  then show ?thesis
    using Some white_space_nonempty [of w] by (auto simp: space_len_def)
qed

lemma space_len_Nil: "space_len [] = 0"
  using white_space_nonempty by (auto simp: space_len_0_iff)

lemma space_len_TrimLeft: "space_len (TrimLeft s) = 0"
  by (induction s rule: TrimLeft.induct) (simp_all add: space_len_Nil)

lemma TrimRight_rev_suffix: "suffix (TrimRight_rev r) r"
proof (induction r rule: TrimRight_rev.induct)
  case 1
  then show ?case by simp
next
  case (2 c cs)
  show ?case
  proof (cases "space_len_back (rev (c # cs)) = 0")
    case True
    then show ?thesis by simp
  next
    case False
    let ?k = "space_len_back (rev (c # cs)) - 1"
    have "suffix (TrimRight_rev (drop ?k cs)) (drop ?k cs)"
      using 2 False by simp
    moreover have "suffix (drop ?k cs) (c # cs)"
      by (simp add: suffix_ConsI suffix_drop)
    ultimately have "suffix (TrimRight_rev (drop ?k cs)) (c # cs)"
      by (rule suffix_order.trans)
    then show ?thesis
      using False by simp
  qed
qed

lemma TrimRight_prefix: "prefix (TrimRight s) s"
  using TrimRight_rev_suffix [of "rev s"] by (simp add: TrimRight_def suffix_to_prefix)

lemma space_len_TrimSpace: "space_len (TrimSpace s) = 0"
proof -
  have "prefix (TrimSpace s) (TrimLeft s)"
    by (simp add: TrimSpace_def TrimRight_prefix)
  then have "\<forall>w \<in> set white_space. prefix w (TrimSpace s) \<longrightarrow> prefix w (TrimLeft s)"
    by auto
  then show ?thesis
    using space_len_TrimLeft [of s] by (auto simp: space_len_0_iff)
qed

lemma fields_from_cur: "cur \<noteq> [] \<Longrightarrow> fields_from cur s \<noteq> []"
  by (induction cur s rule: fields_from.induct) auto

lemma Fields_first:
  assumes "s \<noteq> []" and "space_len s = 0"
  shows "Fields s \<noteq> []"
proof -
  obtain c cs where s: "s = c # cs"
    using assms(1) by (cases s) auto
  have "fields_from [] (c # cs) = fields_from [c] cs"
    using assms(2) s by simp
  then show ?thesis
    using fields_from_cur [of "[c]" cs] s by (simp add: Fields_def)
qed

lemma command_TrimSpace:
  assumes "TrimSpace line \<noteq> []"
  shows "\<exists>c. command (TrimSpace line) = Some c"
proof -
  have "Fields (TrimSpace line) \<noteq> []"
    using assms space_len_TrimSpace by (rule Fields_first)
  then show ?thesis
    by (cases "Fields (TrimSpace line)") (simp_all add: command_def)
qed

text \<open>
  The first field of a trimmed line is the start of the line. So a line with the first
  field \<open>insert\<close> is \<open>insert\<close> alone or has at least 7 bytes.
\<close>

lemma fields_from_first:
  assumes "fields_from cur s = f # rest" and "cur \<noteq> [] \<or> space_len s = 0"
  shows "prefix f (cur @ s)"
  using assms
proof (induction cur s arbitrary: f rest rule: fields_from.induct)
  case (1 cur)
  then show ?case
    by (auto split: if_splits)
next
  case (2 cur c cs)
  show ?case
  proof (cases "space_len (c # cs) = 0")
    case True
    then have "fields_from (cur @ [c]) cs = f # rest"
      using "2.prems"(1) by simp
    then have "prefix f ((cur @ [c]) @ cs)"
      using "2.IH"(1) [OF True] by simp
    then show ?thesis
      by simp
  next
    case False
    then have "cur \<noteq> []"
      using "2.prems"(2) by simp
    then have "f = cur"
      using "2.prems"(1) False by simp
    then show ?thesis
      by simp
  qed
qed

lemma Fields_first_prefix:
  assumes "Fields (TrimSpace line) = f # rest"
  shows "prefix f (TrimSpace line)"
  using fields_from_first [of "[]" "TrimSpace line" f rest] assms space_len_TrimSpace [of line]
  by (simp add: Fields_def)

lemma insert_line_length:
  assumes "Fields (TrimSpace line) = Insert # args" and "TrimSpace line \<noteq> ''insert''"
  shows "7 \<le> length (TrimSpace line)"
proof -
  have "prefix ''insert'' (TrimSpace line)"
    using Fields_first_prefix [OF assms(1)] by (simp add: Insert_def)
  then obtain r where r: "TrimSpace line = ''insert'' @ r"
    by (auto simp: prefix_def)
  then have "r \<noteq> []"
    using assms(2) by auto
  then show ?thesis
    using r by (cases r) auto
qed

text \<open>\<open>QueryEscape\<close> loses nothing.\<close>

lemma upperhex_inj:
  assumes "i < 16" and "j < 16" and "upperhex ! i = upperhex ! j"
  shows "i = j"
proof -
  have d: "distinct upperhex"
    by (simp add: upperhex_def)
  have l: "length upperhex = 16"
    by (simp add: upperhex_def)
  show ?thesis
    using assms d l by (simp add: nth_eq_iff_index_eq)
qed

lemma of_char_hex_inj:
  fixes a b :: char
  assumes "upperhex ! (of_char a div 16) = upperhex ! (of_char b div 16)"
      and "upperhex ! (of_char a mod 16) = upperhex ! (of_char b mod 16)"
  shows "a = b"
proof -
  have la: "(of_char a :: nat) < 256" and lb: "(of_char b :: nat) < 256"
    by simp_all
  have da: "(of_char a :: nat) div 16 < 16" and db: "(of_char b :: nat) div 16 < 16"
    using la lb by (simp_all add: less_mult_imp_div_less)
  have "(of_char a :: nat) div 16 = of_char b div 16"
    by (rule upperhex_inj [OF da db assms(1)])
  moreover have "(of_char a :: nat) mod 16 = of_char b mod 16"
    by (intro upperhex_inj [OF _ _ assms(2)]) simp_all
  ultimately have "(of_char a :: nat) = of_char b"
    by (metis div_mult_mod_eq)
  then show ?thesis
    by simp
qed

lemma escape_byte_cases:
  "escape_byte c = ''+'' \<and> c = CHR '' ''
   \<or> escape_byte c = [c] \<and> c \<in> set unreserved
   \<or> escape_byte c = [CHR ''%'', upperhex ! (of_char c div 16), upperhex ! (of_char c mod 16)]"
  by (simp add: escape_byte_def shouldEscape_def)

lemma unreserved_not: "CHR ''+'' \<notin> set unreserved" "CHR ''%'' \<notin> set unreserved"
    "CHR '' '' \<notin> set unreserved"
  by (simp_all add: unreserved_def)

lemma escape_byte_inj:
  assumes "escape_byte a @ r = escape_byte b @ r'"
  shows "a = b \<and> r = r'"
  using escape_byte_cases [of a] escape_byte_cases [of b] assms unreserved_not
  by (elim disjE conjE) (auto dest: of_char_hex_inj)

lemma escape_byte_nonempty: "escape_byte c \<noteq> []"
  using escape_byte_cases [of c] by auto

text \<open>The escaped text determines the text: a form field holds the value it was given.\<close>

lemma QueryEscape_inj: "QueryEscape a = QueryEscape b \<Longrightarrow> a = b"
proof (induction a arbitrary: b)
  case Nil
  then show ?case
    by (cases b) (auto simp: QueryEscape_def escape_byte_nonempty)
next
  case (Cons x xs)
  show ?case
  proof (cases b)
    case Nil
    then show ?thesis
      using Cons.prems by (auto simp: QueryEscape_def escape_byte_nonempty)
  next
    case (Cons y ys)
    then have "escape_byte x @ QueryEscape xs = escape_byte y @ QueryEscape ys"
      using Cons.prems by (simp add: QueryEscape_def)
    then have "x = y" "QueryEscape xs = QueryEscape ys"
      using escape_byte_inj by blast+
    then show ?thesis
      using Cons.IH Cons by simp
  qed
qed

lemma EncodeToString_example: "EncodeToString ''u:p'' = ''dTpw''"
  by code_simp

lemma TrimSpace_insert: "TrimSpace ''insert'' = ''insert''"
  by code_simp

lemma command_insert: "command ''insert'' = Some Insert"
  by code_simp

lemma executor_insert: "executor e hc cl ''insert'' = ([], Panicked)"
  by (simp add: executor_def TrimSpace_insert command_insert write_cmd_def Command_defs)

section \<open>The transport client\<close>

text \<open>
  C1. After \<open>generateBasicToken u p\<close>, every request of \<open>innerRequest\<close> (the one function
  through which both the query and the write go) carries the header \<open>Authorization\<close> with
  the value \<open>Basic Basic\<close> followed by the Base64 encoding of \<open>u:p\<close>: the prefix is there
  twice, once from \<open>generateBasicToken\<close> and once from \<open>innerRequest\<close>, where the claim
  has it once.
\<close>

theorem authorization_header_doubled:
  "innerRequest e (generateBasicToken u p hc) url body =
     ([HttpDo \<lparr>Method = ''POST'', URL = url,
               Header = [(''Content-Type'', ''application/x-www-form-urlencoded''),
                         (''Authorization'', ''Basic Basic '' @ EncodeToString (u @ '':'' @ p))],
               Body = body\<rparr>],
      transport e \<lparr>Method = ''POST'', URL = url,
               Header = [(''Content-Type'', ''application/x-www-form-urlencoded''),
                         (''Authorization'', ''Basic Basic '' @ EncodeToString (u @ '':'' @ p))],
               Body = body\<rparr>)"
  by (simp add: innerRequest_def generateBasicToken_def Let_def)

section \<open>The executor\<close>

text \<open>
  C2. The line \<open>insert\<close> alone is classified as an insert, and \<open>write\<close> slices it at
  byte 7 of its 6: the executor panics, nothing is printed, and the session ends there
  whatever lines follow. The claim has every line handled and the loop going on.
\<close>

theorem session_dies_on_insert: "session hc cl ((e, ''insert'') # rest) = ([], Panicked)"
  by (simp add: executor_insert)

text \<open>
  The other lines do not make the executor panic, as long as no answer of the server
  makes \<open>pretty\<close> panic (see C8).
\<close>

lemma executor_no_panic:
  assumes "TrimSpace line \<noteq> ''insert''"
      and "\<And>b. snd (pretty e b) \<noteq> Panicked"
  shows "snd (executor e hc cl line) \<noteq> Panicked"
proof (cases "TrimSpace line = []")
  case True
  then show ?thesis
    by (simp add: executor_def)
next
  case False
  then obtain c where c: "command (TrimSpace line) = Some c"
    using command_TrimSpace by blast
  then obtain args where f: "Fields (TrimSpace line) = c # args"
    by (auto simp: command_def split: list.splits)
  have w: "c = Insert \<Longrightarrow> 7 \<le> length (TrimSpace line)"
    using insert_line_length f assms(1) by blast
  have r: "\<And>ev err cl'. snd (report ev err cl') \<noteq> Panicked"
    by (simp add: report_def split: option.splits)
  have p: "\<And>b ev. pretty e b \<noteq> (ev, Panicked)"
    using assms(2) by (metis snd_conv)
  have q: "snd (query e hc cl (TrimSpace line)) \<noteq> Panicked"
    using p by (auto simp: query_def split: prod.splits sum.splits result.splits)
  show ?thesis
    using False c w r q
    by (auto simp: executor_def Let_def deconstruct_def write_cmd_def
             split: prod.splits result.splits)
qed

text \<open>
  C3. The line \<open>insert\<close> alone is classified as an insert and issues no write request:
  \<open>write\<close> panics before it reaches the transport client. The claim has a write request
  for every line classified as insert.
\<close>

theorem insert_alone_no_write_request:
  "command (TrimSpace ''insert'') = Some Insert
   \<and> write_cmd e hc cl (TrimSpace ''insert'') = Panicked
   \<and> executor e hc cl ''insert'' = ([], Panicked)"
  by (simp add: executor_insert TrimSpace_insert command_insert write_cmd_def)

text \<open>
  C6. A line whose only field is \<open>use\<close> makes the executor print
  \<open>invalid argument, use [db name]\<close> and leaves the session as it was, the database
  included.
\<close>

theorem use_without_argument:
  assumes "Fields (TrimSpace line) = [''use'']"
  shows "executor e hc cl line
         = ([Stdout ''invalid argument, use [db name]\<newline>''], Returned cl)"
proof -
  let ?s = "TrimSpace line"
  have ne: "?s \<noteq> []"
    using assms Fields_Nil by auto
  have nx: "?s \<noteq> ''exit''" "?s \<noteq> ''quit''" "?s \<noteq> [CHR 0x5C, CHR ''q'']"
    using assms Fields_exit by auto
  have c: "command ?s = Some ''use''"
    using assms by (simp add: command_def)
  have u: "use cl ?s = (Some (Err ''invalid argument, use [db name]''), cl)"
    using assms by (simp add: use_def)
  show ?thesis
    using ne nx c u by (simp add: executor_def Command_defs report_def Println_def Let_def)
qed

theorem use_without_argument_witness:
  "Fields (TrimSpace '' use '') = [''use'']
   \<and> executor ex_env ex_client ex_cl '' use ''
       = ([Stdout ''invalid argument, use [db name]\<newline>''], Returned ex_cl)"
proof -
  have h: "Fields (TrimSpace '' use '') = [''use'']"
    by code_simp
  show ?thesis
    using h use_without_argument [OF h, of ex_env ex_client ex_cl] by simp
qed

text \<open>
  C7, as the code has it. A line with a first field that is none of the fifteen commands,
  and that is not as a whole \<open>exit\<close>, \<open>quit\<close> or \<open>\q\<close>, makes the executor print
  \<open>unsupported command:\<close> and that field, and leaves the session as it was.
\<close>

theorem unsupported_command:
  assumes "Fields (TrimSpace line) = c # args"
      and "c \<notin> {Help, Use, Rp, Auth, Precision_cmd, Insert, Show, Drop, Create, Explain,
                 Kill, Grant, Alter, Revoke, Set_cmd}"
      and "TrimSpace line \<notin> {''exit'', ''quit'', [CHR 0x5C, CHR ''q'']}"
  shows "executor e hc cl line
         = ([Stdout (''unsupported command: '' @ c @ ''\<newline>'')], Returned cl)"
proof -
  let ?s = "TrimSpace line"
  have ne: "?s \<noteq> []"
    using assms(1) Fields_Nil by auto
  have c: "command ?s = Some c"
    using assms(1) by (simp add: command_def)
  show ?thesis
    using ne c assms(2,3) by (simp add: executor_def report_def Println_def Let_def)
qed

theorem unsupported_command_witness:
  "Fields (TrimSpace ''select 1'') = ''select'' # [''1'']
   \<and> ''select'' \<notin> {Help, Use, Rp, Auth, Precision_cmd, Insert, Show, Drop, Create, Explain,
                     Kill, Grant, Alter, Revoke, Set_cmd}
   \<and> TrimSpace ''select 1'' \<notin> {''exit'', ''quit'', [CHR 0x5C, CHR ''q'']}
   \<and> executor ex_env ex_client ex_cl ''select 1''
       = ([Stdout ''unsupported command: select\<newline>''], Returned ex_cl)"
proof -
  have f: "Fields (TrimSpace ''select 1'') = ''select'' # [''1'']"
    by code_simp
  have c: "''select'' \<notin> {Help, Use, Rp, Auth, Precision_cmd, Insert, Show, Drop, Create,
                           Explain, Kill, Grant, Alter, Revoke, Set_cmd}"
    by (simp add: Command_defs)
  have t: "TrimSpace ''select 1'' = ''select 1''"
    by code_simp
  have x: "TrimSpace ''select 1'' \<notin> {''exit'', ''quit'', [CHR 0x5C, CHR ''q'']}"
    unfolding t by simp
  show ?thesis
    using f c x unsupported_command [OF f c x, of ex_env ex_client ex_cl] by simp
qed

text \<open>
  The claim C7 as it is written fails at the line \<open>exit\<close>: its first field is none of the
  fifteen commands, and the executor ends the process without printing anything.
\<close>

theorem unsupported_command_counterexample:
  "Fields (TrimSpace ''exit'') = [''exit'']
   \<and> ''exit'' \<notin> {Help, Use, Rp, Auth, Precision_cmd, Insert, Show, Drop, Create, Explain,
                   Kill, Grant, Alter, Revoke, Set_cmd}
   \<and> executor ex_env ex_client ex_cl ''exit'' = ([], Exited)"
proof -
  have t: "TrimSpace ''exit'' = ''exit''"
    by code_simp
  have c: "''exit'' \<notin> {Help, Use, Rp, Auth, Precision_cmd, Insert, Show, Drop, Create,
                         Explain, Kill, Grant, Alter, Revoke, Set_cmd}"
    by (simp add: Command_defs)
  have x: "executor ex_env ex_client ex_cl ''exit'' = ([], Exited)"
    by (simp add: executor_def t deconstruct_def)
  show ?thesis
    using c x by (simp add: t Fields_exit)
qed

text \<open>
  C10. A line made of white-space runes only, the empty line included, does nothing: no
  output, no request, and the session as it was.
\<close>

theorem blank_line_no_action:
  "set ws \<subseteq> set white_space \<Longrightarrow> executor e hc cl (concat ws) = ([], Returned cl)"
  by (simp add: executor_def TrimSpace_spaces)

theorem blank_line_no_action_witness:
  "set [[CHR 0x20], [CHR 0x09], [CHR 0xC2, CHR 0xA0]] \<subseteq> set white_space
   \<and> executor ex_env ex_client ex_cl [CHR 0x20, CHR 0x09, CHR 0xC2, CHR 0xA0]
       = ([], Returned ex_cl)"
proof -
  have h: "set [[CHR 0x20], [CHR 0x09], [CHR 0xC2, CHR 0xA0]] \<subseteq> set white_space"
    by (simp add: white_space_def)
  show ?thesis
    using h blank_line_no_action [OF h, of ex_env ex_client ex_cl] by simp
qed

section \<open>The renderer\<close>

subsection \<open>The tags of a series\<close>

lemma tags_step_mset:
  "mset (foldl (\<lambda>tags (k, v). sort (tags @ [k @ ''='' @ v])) acc kvs)
   = mset acc + mset (map (\<lambda>(k, v). k @ ''='' @ v) kvs)"
  by (induction kvs arbitrary: acc) (auto simp: case_prod_beta)

lemma tags_step_sorted:
  "sorted acc \<Longrightarrow> sorted (foldl (\<lambda>tags (k, v). sort (tags @ [k @ ''='' @ v])) acc kvs)"
  by (induction kvs arbitrary: acc) (auto simp: case_prod_beta)

text \<open>Sorting after every append gives what one sort at the end gives.\<close>

lemma series_tags_sort: "series_tags kvs = sort (map (\<lambda>(k, v). k @ ''='' @ v) kvs)"
proof -
  have m: "mset (series_tags kvs) = mset (map (\<lambda>(k, v). k @ ''='' @ v) kvs)"
    unfolding series_tags_def using tags_step_mset [of "[]" kvs] by simp
  have s: "sorted (series_tags kvs)"
    unfolding series_tags_def by (rule tags_step_sorted) simp
  show ?thesis
    by (rule properties_for_sort [symmetric, OF m s])
qed

lemma series_tags_Nil: "series_tags kvs = [] \<longleftrightarrow> kvs = []"
proof -
  have "length (series_tags kvs) = length kvs"
    by (simp add: series_tags_sort)
  then show ?thesis
    by (metis length_0_conv)
qed

lemma series_tags_perm:
  assumes "mset kvs = mset kvs'"
  shows "series_tags kvs = series_tags kvs'"
proof -
  have "mset (map (\<lambda>(k, v). k @ ''='' @ v) kvs) = mset (map (\<lambda>(k, v). k @ ''='' @ v) kvs')"
    using assms by simp
  then have "mset (sort (map (\<lambda>(k, v). k @ ''='' @ v) kvs))
             = mset (map (\<lambda>(k, v). k @ ''='' @ v) kvs')"
    by simp
  then have "sort (map (\<lambda>(k, v). k @ ''='' @ v) kvs')
             = sort (map (\<lambda>(k, v). k @ ''='' @ v) kvs)"
    by (rule properties_for_sort) simp
  then show ?thesis
    by (simp add: series_tags_sort)
qed

lemma Append_fold:
  "foldl (\<lambda>w val. Append (f val) w) w vs = w\<lparr>rows := rows w @ map f vs\<rparr>"
  by (induction vs arbitrary: w) (simp_all add: Append_def)

lemma prettyTable_eq:
  "prettyTable sprint series NewWriter
   = \<lparr>autoFormatHeaders = False, headers = Columns series,
      rows = map (map sprint) (Values series)\<rparr>"
  by (simp add: prettyTable_def Append_fold SetHeader_def SetAutoFormatHeaders_def NewWriter_def)

lemma fmt_d_nat: "fmt_d (int n) = decimal n"
  by (simp add: fmt_d_def)

text \<open>
  C4, as the code has it. Let a series have tags, and let \<open>kvs\<close> be its tag mapping in
  any order of iteration. What is rendered for the series is its name line (when it has a
  name), then the line \<open>tags:\<close> with the strings \<open>key=value\<close> sorted as whole strings,
  byte by byte (the order of \<open>sort.Strings\<close>), joined by a comma and a space, then the
  table, the caption and the blank line: the same output for every order \<open>kvs\<close>.
\<close>

theorem tags_line_sorted:
  assumes "Tags series \<noteq> []" and "mset kvs = mset (Tags series)"
  shows "pretty_series sprint (series\<lparr>Tags := kvs\<rparr>)
         = (if Name series \<noteq> [] then [Stdout (''name: '' @ Name series @ ''\<newline>'')] else [])
           @ [Stdout (''tags: ''
                      @ Join (sort (map (\<lambda>(k, v). k @ ''='' @ v) (Tags series))) '', ''
                      @ ''\<newline>''),
              Render (prettyTable sprint series NewWriter),
              Println (fmt_d (int (length (Columns series))) @ '' columns, ''
                       @ fmt_d (int (length (Values series))) @ '' rows in set''),
              Println '''']"
proof -
  have st: "series_tags kvs = sort (map (\<lambda>(k, v). k @ ''='' @ v) (Tags series))"
    using series_tags_perm [OF assms(2)] by (simp add: series_tags_sort)
  have pt: "prettyTable sprint (series\<lparr>Tags := kvs\<rparr>) NewWriter
            = prettyTable sprint series NewWriter"
    by (simp add: prettyTable_eq)
  show ?thesis
    unfolding pretty_series_def Let_def pt by (simp add: st assms(1))
qed

text \<open>The tags \<open>{b:2, a:1}\<close>, iterated as \<open>a, b\<close> or as \<open>b, a\<close>, give \<open>tags: a=1, b=2\<close>.\<close>

theorem tags_line_sorted_witness:
  "Tags ex_series \<noteq> []
   \<and> mset [(''a'', ''1''), (''b'', ''2'')] = mset (Tags ex_series)
   \<and> pretty_series fmt_d (ex_series\<lparr>Tags := [(''a'', ''1''), (''b'', ''2'')]\<rparr>)
       = [Stdout ''name: cpu\<newline>'', Stdout ''tags: a=1, b=2\<newline>'',
          Render \<lparr>autoFormatHeaders = False, headers = [''time'', ''value''],
                   rows = [[''1000'', ''42'']]\<rparr>,
          Stdout ''2 columns, 1 rows in set\<newline>'', Stdout ''\<newline>'']
   \<and> pretty_series fmt_d (ex_series\<lparr>Tags := [(''b'', ''2''), (''a'', ''1'')]\<rparr>)
       = [Stdout ''name: cpu\<newline>'', Stdout ''tags: a=1, b=2\<newline>'',
          Render \<lparr>autoFormatHeaders = False, headers = [''time'', ''value''],
                   rows = [[''1000'', ''42'']]\<rparr>,
          Stdout ''2 columns, 1 rows in set\<newline>'', Stdout ''\<newline>'']"
proof -
  have h1: "Tags ex_series \<noteq> []"
    by (simp add: ex_series_def)
  have h2: "mset [(''a'', ''1''), (''b'', ''2'')] = mset (Tags ex_series)"
    by (simp add: ex_series_def)
  have h3: "mset [(''b'', ''2''), (''a'', ''1'')] = mset (Tags ex_series)"
    by (simp add: ex_series_def)
  have r: "(if Name ex_series \<noteq> [] then [Stdout (''name: '' @ Name ex_series @ ''\<newline>'')]
            else [])
           @ [Stdout (''tags: ''
                      @ Join (sort (map (\<lambda>(k, v). k @ ''='' @ v) (Tags ex_series))) '', ''
                      @ ''\<newline>''),
              Render (prettyTable fmt_d ex_series NewWriter),
              Println (fmt_d (int (length (Columns ex_series))) @ '' columns, ''
                       @ fmt_d (int (length (Values ex_series))) @ '' rows in set''),
              Println '''']
        = [Stdout ''name: cpu\<newline>'', Stdout ''tags: a=1, b=2\<newline>'',
          Render \<lparr>autoFormatHeaders = False, headers = [''time'', ''value''],
                   rows = [[''1000'', ''42'']]\<rparr>,
          Stdout ''2 columns, 1 rows in set\<newline>'', Stdout ''\<newline>'']"
    by code_simp
  show ?thesis
    using h1 h2 tags_line_sorted [OF h1 h2, of fmt_d] tags_line_sorted [OF h1 h3, of fmt_d]
    unfolding r by simp
qed

text \<open>
  The claim C4 as it is written, the pairs in alphabetical order of their keys, fails at
  the tags \<open>{host:a, host1:b}\<close>: the key \<open>host\<close> comes before the key \<open>host1\<close>, and
  the line rendered has \<open>host1=b\<close> first, since the byte \<open>1\<close> is below the byte \<open>=\<close>.
\<close>

theorem tags_sorted_by_key_counterexample:
  "pretty_series fmt_d
     \<lparr>Name = [], Tags = [(''host'', ''a''), (''host1'', ''b'')], Columns = [], Values = []\<rparr>
   = [Stdout ''tags: host1=b, host=a\<newline>'',
      Render \<lparr>autoFormatHeaders = False, headers = [], rows = []\<rparr>,
      Stdout ''0 columns, 0 rows in set\<newline>'', Stdout ''\<newline>'']
   \<and> ''host'' < ''host1''
   \<and> sort [''host'', ''host1''] = [''host'', ''host1'']"
  by code_simp

subsection \<open>The table and the caption\<close>

text \<open>
  C9. What is rendered for a series ends with the table, the caption and a blank line.
  The table has the switch for the reformatting of headers off, the columns of the
  series as its header and, as its rows, the rows of values with every cell printed by
  \<open>%v\<close>. The caption is the number of columns, \<open>columns,\<close>, the number of rows and
  \<open>rows in set\<close>. Before the table come only the name line and the tags line.
\<close>

theorem table_and_caption:
  "pretty_series sprint series
   = (if Name series \<noteq> [] then [Stdout (''name: '' @ Name series @ ''\<newline>'')] else [])
     @ (if Tags series \<noteq> []
        then [Stdout (''tags: '' @ Join (series_tags (Tags series)) '', '' @ ''\<newline>'')]
        else [])
     @ [Render \<lparr>autoFormatHeaders = False, headers = Columns series,
                rows = map (map sprint) (Values series)\<rparr>,
        Stdout (decimal (length (Columns series)) @ '' columns, ''
                @ decimal (length (Values series)) @ '' rows in set\<newline>''),
        Stdout ''\<newline>'']"
  unfolding pretty_series_def Let_def prettyTable_eq fmt_d_nat Println_def
  by (simp add: series_tags_Nil)

text \<open>
  The columns \<open>time, value\<close> with the one row \<open>1000, 42\<close>: one header row, one body row,
  and the caption \<open>2 columns, 1 rows in set\<close>.
\<close>

theorem table_and_caption_witness:
  "pretty_series fmt_d
     \<lparr>Name = [], Tags = [], Columns = [''time'', ''value''], Values = [[1000, 42]]\<rparr>
   = [Render \<lparr>autoFormatHeaders = False, headers = [''time'', ''value''],
              rows = [[''1000'', ''42'']]\<rparr>,
      Stdout ''2 columns, 1 rows in set\<newline>'', Stdout ''\<newline>'']"
proof -
  let ?s = "\<lparr>Name = [], Tags = [], Columns = [''time'', ''value''],
             Values = [[1000, 42 :: int]]\<rparr>"
  have e: "(if Name ?s \<noteq> [] then [Stdout (''name: '' @ Name ?s @ ''\<newline>'')] else [])
     @ (if Tags ?s \<noteq> []
        then [Stdout (''tags: '' @ Join (series_tags (Tags ?s)) '', '' @ ''\<newline>'')]
        else [])
     @ [Render \<lparr>autoFormatHeaders = False, headers = Columns ?s,
                rows = map (map fmt_d) (Values ?s)\<rparr>,
        Stdout (decimal (length (Columns ?s)) @ '' columns, ''
                @ decimal (length (Values ?s)) @ '' rows in set\<newline>''),
        Stdout ''\<newline>'']
     = [Render \<lparr>autoFormatHeaders = False, headers = [''time'', ''value''],
              rows = [[''1000'', ''42'']]\<rparr>,
      Stdout ''2 columns, 1 rows in set\<newline>'', Stdout ''\<newline>'']"
    by code_simp
  show ?thesis
    by (rule trans [OF table_and_caption e])
qed

subsection \<open>Decoding and the order of the series\<close>

lemma pretty_decode_failure:
  "unmarshal e r = Inl err \<Longrightarrow> pretty e r = ([Println (message err)], Returned ())"
  by (simp add: pretty_def)

lemma pretty_inner_all:
  "pretty_inner sprint (map Some ss) = (concat (map (pretty_series sprint) ss), Returned ())"
  by (induction ss) simp_all

text \<open>
  When no entry of \<open>results\<close> and no entry of a \<open>series\<close> is null, every series is
  rendered, in the order of the input.
\<close>

lemma pretty_outer_all:
  "pretty_outer sprint (map (\<lambda>ss. Some \<lparr>Series = map Some ss, Error = msg ss\<rparr>) sss)
   = (concat (map (pretty_series sprint) (concat sss)), Returned ())"
  by (induction sss) (simp_all add: pretty_inner_all)

text \<open>
  C8. An answer that decodes, with a \<open>null\<close> between two series: the first series is
  rendered, then \<open>pretty\<close> reads the tags through the nil pointer and panics, and the
  series after the \<open>null\<close> is never rendered. The claim has every series of an answer that
  decodes rendered, in the order of the input.
\<close>

theorem pretty_panics_on_null_series:
  "pretty null_env r = (pretty_series fmt_d ex_series, Panicked)"
  by (simp add: pretty_def null_env_def null_result_def ex_env_def)

section \<open>Sessions\<close>

lemma sort_form_keys:
  "sort [''db'', ''rp'', ''q'', ''epoch''] = [''db'', ''epoch'', ''q'', ''rp'']"
  by code_simp

lemma QueryEscape_keys:
  "QueryEscape ''db'' = ''db''"
  "QueryEscape ''rp'' = ''rp''"
  "QueryEscape ''q'' = ''q''"
  "QueryEscape ''epoch'' = ''epoch''"
  by code_simp+

lemma Encode_form:
  "Encode [(''db'', [d]), (''rp'', [r]), (''q'', [c]), (''epoch'', [p])]
   = ''db='' @ QueryEscape d @ ''&epoch='' @ QueryEscape p @ ''&q='' @ QueryEscape c
     @ ''&rp='' @ QueryEscape r"
  by (simp add: Encode_def Get_all_def sort_form_keys QueryEscape_keys del: sort_key_simps)

lemma executor_use:
  assumes "Fields (TrimSpace line) = Use # x # rest"
  shows "executor e hc cl line = ([], Returned (cl\<lparr>Database := x\<rparr>))"
proof -
  let ?s = "TrimSpace line"
  have ne: "?s \<noteq> []"
    using assms Fields_Nil by auto
  have nx: "?s \<noteq> ''exit''" "?s \<noteq> ''quit''" "?s \<noteq> [CHR 0x5C, CHR ''q'']"
    using assms Fields_exit by (auto simp: Use_def)
  have c: "command ?s = Some ''use''"
    using assms by (simp add: command_def Use_def)
  have u: "use cl ?s = (None, cl\<lparr>Database := x\<rparr>)"
    using assms by (simp add: use_def)
  show ?thesis
    using ne nx c u by (simp add: executor_def Command_defs report_def Let_def)
qed

lemma report_Returned: "report ev err cl = (ev', r) \<Longrightarrow> r = Returned cl"
  by (auto simp: report_def split: option.splits)

text \<open>Only \<open>use\<close> with an argument changes the database of the session.\<close>

lemma executor_keeps_Database:
  assumes "executor e hc cl line = (ev, Returned cl')"
      and "\<forall>y ys. Fields (TrimSpace line) \<noteq> Use # y # ys"
  shows "Database cl' = Database cl"
proof (cases "Fields (TrimSpace line)")
  case Nil
  then have "command (TrimSpace line) = None"
    by (simp add: command_def)
  then show ?thesis
    using assms(1) by (auto simp: executor_def Let_def deconstruct_def split: if_splits)
next
  case (Cons c args)
  then have c: "command (TrimSpace line) = Some c"
    by (simp add: command_def)
  have u: "c = Use \<Longrightarrow>
           use cl (TrimSpace line) = (Some (Err ''invalid argument, use [db name]''), cl)"
    using Cons assms(2) by (cases args) (auto simp: use_def)
  have rp: "Database (snd (retentionPolicy cl (TrimSpace line))) = Database cl"
    by (simp add: retentionPolicy_def Let_def)
  have pr: "Database (snd (precision cl (TrimSpace line))) = Database cl"
    by (simp add: precision_def Let_def)
  have au: "Database (snd (snd (auth e cl))) = Database cl"
    by (simp add: auth_def Let_def split: option.splits)
  show ?thesis
    using assms(1) c u rp pr au
    by (auto simp: executor_def Let_def deconstruct_def
             split: if_splits prod.splits result.splits dest!: report_Returned)
qed

lemma session_keeps_Database:
  assumes "session hc cl lines = (ev, Returned cl')"
      and "\<forall>(e, m) \<in> set lines. \<forall>y ys. Fields (TrimSpace m) \<noteq> Use # y # ys"
  shows "Database cl' = Database cl"
  using assms
proof (induction lines arbitrary: cl ev)
  case Nil
  then show ?case
    by simp
next
  case (Cons em lines)
  obtain e m where em: "em = (e, m)"
    by (cases em)
  obtain ev1 r1 where x: "executor e hc cl m = (ev1, r1)"
    by (cases "executor e hc cl m")
  show ?case
  proof (cases r1)
    case (Returned cl1)
    obtain ev2 r2 where s: "session hc cl1 lines = (ev2, r2)"
      by (cases "session hc cl1 lines")
    have r2: "r2 = Returned cl'"
      using Cons.prems(1) em x Returned s by simp
    have "Database cl' = Database cl1"
      using Cons.IH [of cl1 ev2] s r2 Cons.prems(2) by simp
    moreover have "Database cl1 = Database cl"
      using executor_keeps_Database [of e hc cl m ev1 cl1] x Returned Cons.prems(2) em by simp
    ultimately show ?thesis
      by simp
  next
    case Panicked
    then show ?thesis
      using Cons.prems(1) em x by simp
  next
    case Exited
    then show ?thesis
      using Cons.prems(1) em x by simp
  qed
qed

text \<open>
  A query command hands one request to the transport before anything else happens: a
  POST to \<open>/query\<close> with the form of the four fields as its body, and with the header
  \<open>Authorization\<close> only when the client has a token.
\<close>

lemma executor_query:
  assumes "Fields (TrimSpace line) = c # args"
      and "c \<in> {Show, Drop, Create, Explain, Kill, Grant, Alter, Revoke, Set_cmd}"
  shows "\<exists>req rest r. executor e hc cl line = (HttpDo req # rest, r)
           \<and> Method req = ''POST''
           \<and> URL req = ''http://'' @ Host hc @ '':'' @ fmt_d (Port hc) @ ''/query''
           \<and> Header req
               = (''Content-Type'', ''application/x-www-form-urlencoded'')
                 # (if BasicToken hc = [] then []
                    else [(''Authorization'', ''Basic '' @ BasicToken hc)])
           \<and> Body req = ''db='' @ QueryEscape (Database cl)
                          @ ''&epoch='' @ QueryEscape (CommandLine.Precision cl)
                          @ ''&q='' @ QueryEscape (TrimSpace line)
                          @ ''&rp='' @ QueryEscape (CommandLine.RetentionPolicy cl)"
proof -
  let ?s = "TrimSpace line"
  let ?u = "''http://'' @ Host hc @ '':'' @ fmt_d (Port hc) @ ''/query''"
  let ?b = "''db='' @ QueryEscape (Database cl)
            @ ''&epoch='' @ QueryEscape (CommandLine.Precision cl)
            @ ''&q='' @ QueryEscape (TrimSpace line)
            @ ''&rp='' @ QueryEscape (CommandLine.RetentionPolicy cl)"
  have ne: "?s \<noteq> []"
    using assms(1) Fields_Nil by auto
  have nx: "?s \<noteq> ''exit''" "?s \<noteq> ''quit''" "?s \<noteq> [CHR 0x5C, CHR ''q'']"
    using assms Fields_exit by (auto simp: Command_defs)
  have c: "command ?s = Some c"
    using assms(1) by (simp add: command_def)
  have nc: "c \<noteq> Help" "c \<noteq> Use" "c \<noteq> Rp" "c \<noteq> Auth" "c \<noteq> Precision_cmd" "c \<noteq> Insert"
    using assms(2) by (auto simp: Command_defs)
  define req where
    "req = \<lparr>Method = ''POST'', URL = ?u,
             Header = (''Content-Type'', ''application/x-www-form-urlencoded'')
                      # (if BasicToken hc = [] then []
                         else [(''Authorization'', ''Basic '' @ BasicToken hc)]),
             Body = ?b\<rparr>"
  have req: "Method req = ''POST''" "URL req = ?u"
      "Header req = (''Content-Type'', ''application/x-www-form-urlencoded'')
                 # (if BasicToken hc = [] then []
                    else [(''Authorization'', ''Basic '' @ BasicToken hc)])"
      "Body req = ?b"
    by (simp_all add: req_def)
  have ir: "innerRequest e hc ?u ?b = ([HttpDo req], transport e req)"
    by (simp add: innerRequest_def Let_def req_def)
  have q: "HttpClient_query e hc
             \<lparr>QueryValue.Database = Database cl,
              QueryValue.RetentionPolicy = CommandLine.RetentionPolicy cl,
              Command = ?s, QueryValue.Precision = CommandLine.Precision cl\<rparr>
           = ([HttpDo req], transport e req)"
    using ir by (simp add: HttpClient_query_def Let_def Encode_form)
  have "\<exists>rest r. query e hc cl ?s = (HttpDo req # rest, r)"
    unfolding query_def q by (auto split: sum.splits prod.splits result.splits)
  then obtain rest r where qq: "query e hc cl ?s = (HttpDo req # rest, r)"
    by blast
  have "\<exists>rest' r'. executor e hc cl line = (HttpDo req # rest', r')"
    using ne nx c nc assms(2) qq
    by (cases r) (auto simp: executor_def Let_def report_def split: option.splits)
  then show ?thesis
    using req by blast
qed

text \<open>
  C5. After a line \<open>use x\<close>, and after any further lines that are no \<open>use\<close> with an
  argument and leave the session running, a query command hands to the transport a POST
  to \<open>/query\<close> whose body is the form with \<open>db\<close> equal to \<open>x\<close>, \<open>epoch\<close> equal to the
  precision of the session, \<open>q\<close> equal to the trimmed line and \<open>rp\<close> equal to the
  retention policy of the session, each value escaped as \<open>url.Values.Encode\<close> does.
\<close>

theorem use_then_query:
  assumes "Fields (TrimSpace l) = Use # x # more_fields"
      and "\<forall>(e', m) \<in> set mid. \<forall>y ys. Fields (TrimSpace m) \<noteq> Use # y # ys"
      and "session hc cl ((e0, l) # mid) = (ev, Returned cl')"
      and "Fields (TrimSpace q) = c # args"
      and "c \<in> {Show, Drop, Create, Explain, Kill, Grant, Alter, Revoke, Set_cmd}"
  shows "\<exists>req rest r. executor e hc cl' q = (HttpDo req # rest, r)
           \<and> Method req = ''POST''
           \<and> URL req = ''http://'' @ Host hc @ '':'' @ fmt_d (Port hc) @ ''/query''
           \<and> Body req = ''db='' @ QueryEscape x
                          @ ''&epoch='' @ QueryEscape (CommandLine.Precision cl')
                          @ ''&q='' @ QueryEscape (TrimSpace q)
                          @ ''&rp='' @ QueryEscape (CommandLine.RetentionPolicy cl')"
proof -
  obtain ev' r' where s: "session hc (cl\<lparr>Database := x\<rparr>) mid = (ev', r')"
    by (cases "session hc (cl\<lparr>Database := x\<rparr>) mid")
  have "r' = Returned cl'"
    using assms(3) s by (simp add: executor_use [OF assms(1)])
  then have "Database cl' = Database (cl\<lparr>Database := x\<rparr>)"
    using session_keeps_Database [of hc "cl\<lparr>Database := x\<rparr>" mid ev' cl'] s assms(2)
    by simp
  then have db: "Database cl' = x"
    by simp
  show ?thesis
    using executor_query [OF assms(4,5), of e hc cl'] unfolding db by blast
qed

lemma fmt_d_8086: "fmt_d 8086 = ''8086''"
  by (simp add: fmt_d_def decimal.simps digit_def)

theorem use_then_query_witness:
  "Fields (TrimSpace ''use mydb'') = Use # ''mydb'' # []
   \<and> Fields (TrimSpace ''rp weekly'') = [''rp'', ''weekly'']
   \<and> Fields (TrimSpace ''use'') = [''use'']
   \<and> session ex_client ex_cl
         ((ex_env, ''use mydb'') # [(ex_env, ''rp weekly''), (ex_env, ''use'')])
       = ([Stdout ''invalid argument, use [db name]\<newline>''],
          Returned \<lparr>Username = [], Password = [], Precision = ''ns'', Database = ''mydb'',
                     RetentionPolicy = ''weekly''\<rparr>)
   \<and> Fields (TrimSpace ''show series'') = ''show'' # [''series'']
   \<and> ''show'' \<in> {Show, Drop, Create, Explain, Kill, Grant, Alter, Revoke, Set_cmd}
   \<and> (\<exists>req rest r.
          executor ex_env ex_client
            \<lparr>Username = [], Password = [], Precision = ''ns'', Database = ''mydb'',
               RetentionPolicy = ''weekly''\<rparr> ''show series'' = (HttpDo req # rest, r)
          \<and> Method req = ''POST''
          \<and> URL req = ''http://localhost:8086/query''
          \<and> Body req = ''db=mydb&epoch=ns&q=show+series&rp=weekly'')"
proof -
  let ?cl = "\<lparr>Username = [], Password = [], Precision = ''ns'', Database = ''mydb'',
               RetentionPolicy = ''weekly''\<rparr>"
  have h1: "Fields (TrimSpace ''use mydb'') = Use # ''mydb'' # []"
    by code_simp
  have f: "Fields (TrimSpace ''rp weekly'') = [''rp'', ''weekly'']"
    "Fields (TrimSpace ''use'') = [''use'']"
    by code_simp+
  have h2: "\<forall>(e', m) \<in> set [(ex_env, ''rp weekly''), (ex_env, ''use'')].
         \<forall>y ys. Fields (TrimSpace m) \<noteq> Use # y # ys"
    by (simp add: f Use_def)
  have h3: "session ex_client ex_cl
              ((ex_env, ''use mydb'') # [(ex_env, ''rp weekly''), (ex_env, ''use'')])
       = ([Stdout ''invalid argument, use [db name]\<newline>''], Returned ?cl)"
    by code_simp
  have h4: "Fields (TrimSpace ''show series'') = ''show'' # [''series'']"
    by code_simp
  have h5: "''show'' \<in> {Show, Drop, Create, Explain, Kill, Grant, Alter, Revoke, Set_cmd}"
    by (simp add: Show_def)
  have u: "''http://'' @ Host ex_client @ '':'' @ fmt_d (Port ex_client) @ ''/query''
           = ''http://localhost:8086/query''"
    by (simp add: ex_client_def fmt_d_8086)
  have b: "''db='' @ QueryEscape ''mydb''
           @ ''&epoch='' @ QueryEscape (CommandLine.Precision ?cl)
           @ ''&q='' @ QueryEscape (TrimSpace ''show series'')
           @ ''&rp='' @ QueryEscape (CommandLine.RetentionPolicy ?cl)
           = ''db=mydb&epoch=ns&q=show+series&rp=weekly''"
    by code_simp
  have c: "\<exists>req rest r.
          executor ex_env ex_client ?cl ''show series'' = (HttpDo req # rest, r)
          \<and> Method req = ''POST''
          \<and> URL req = ''http://localhost:8086/query''
          \<and> Body req = ''db=mydb&epoch=ns&q=show+series&rp=weekly''"
    using use_then_query [OF h1 h2 h3 h4 h5, of ex_env] unfolding u b .
  show ?thesis
    by (intro conjI h1 f h3 h4 h5 c)
qed

text \<open>
  The \<open>auth\<close> command stores the name and the password in the session and nothing else:
  the token of the client stays what it was. With a client without a token, a query
  carries no \<open>Authorization\<close> header, whatever the session holds.
\<close>

lemma query_without_token:
  assumes "BasicToken hc = []"
      and "Fields (TrimSpace line) = c # args"
      and "c \<in> {Show, Drop, Create, Explain, Kill, Grant, Alter, Revoke, Set_cmd}"
  shows "\<exists>req rest r. executor e hc cl line = (HttpDo req # rest, r)
           \<and> Header req = [(''Content-Type'', ''application/x-www-form-urlencoded'')]"
  using executor_query [OF assms(2,3), of e hc cl] assms(1) by auto

lemma executor_auth:
  assumes "Fields (TrimSpace line) = Auth # args"
  shows "executor e hc cl line
         = ([Stdout ''username: '', Stdout ''password: '', Stdout ''\<newline>''],
            Returned ((case scan_username e of None \<Rightarrow> cl | Some u \<Rightarrow> cl\<lparr>Username := u\<rparr>)
                       \<lparr>Password := read_password e\<rparr>))"
proof -
  let ?s = "TrimSpace line"
  have ne: "?s \<noteq> []"
    using assms Fields_Nil by auto
  have nx: "?s \<noteq> ''exit''" "?s \<noteq> ''quit''" "?s \<noteq> [CHR 0x5C, CHR ''q'']"
    using assms Fields_exit by (auto simp: Auth_def)
  have c: "command ?s = Some ''auth''"
    using assms by (simp add: command_def Auth_def)
  show ?thesis
    using ne nx c by (simp add: executor_def Command_defs report_def Let_def auth_def)
qed

text \<open>
  An insert line other than \<open>insert\<close> alone hands one request to the transport: a POST to
  \<open>/write\<close> with the database and the retention policy of the session in the URL, as they
  are, and the line without its first 7 bytes as the body.
\<close>

lemma executor_insert_payload:
  assumes "Fields (TrimSpace line) = Insert # args"
      and "TrimSpace line \<noteq> ''insert''"
  shows "\<exists>req rest. executor e hc cl line = (HttpDo req # rest, Returned cl)
           \<and> Method req = ''POST''
           \<and> URL req = ''http://'' @ Host hc @ '':'' @ fmt_d (Port hc)
                         @ ''/write?db='' @ Database cl
                         @ ''&rp='' @ CommandLine.RetentionPolicy cl
           \<and> Body req = drop 7 (TrimSpace line)"
proof -
  let ?s = "TrimSpace line"
  have ne: "?s \<noteq> []"
    using assms(1) Fields_Nil by auto
  have nx: "?s \<noteq> ''exit''" "?s \<noteq> ''quit''" "?s \<noteq> [CHR 0x5C, CHR ''q'']"
    using assms(1) Fields_exit by (auto simp: Command_defs)
  have c: "command ?s = Some ''insert''"
    using assms(1) by (simp add: command_def Insert_def)
  have l: "7 \<le> length ?s"
    using assms by (rule insert_line_length)
  show ?thesis
    using ne nx c l
    by (auto simp: executor_def Let_def Command_defs write_cmd_def HttpClient_write_def
          innerRequest_def report_def split: sum.splits)
qed

end
